theory Spec2Isabelle
  imports Main "HOL-Library.Sublist"
begin

section \<open>Component IR\<close>

text \<open>
  The parts of \<open>MitosisComponent\<close> and \<open>MitosisNode\<close> that the helpers of
  \<open>generators/angular/helpers/index.ts\<close> and of the React state helpers read or write.
  Every object that carries a \<open>code: string\<close> field (a state value, a hook, a binding)
  extends the record \<open>Code\<close>, so that the field keeps its name everywhere.
\<close>

record Code =
  code :: string

type_synonym BaseHook = Code

datatype StateValueType = Function | Getter | Method | Property

record StateValue = Code +
  type :: StateValueType
  typeParameter :: "string option"

record Binding = Code +
  arguments :: "string list option"

text \<open>
  \<open>json.hooks\<close>: \<open>onInit\<close> is optional (\<open>json.hooks.onInit?.code\<close>); \<open>onMount\<close> stands
  for the hooks that the pass never names.
\<close>

record Hooks =
  onInit :: "BaseHook option"
  onMount :: "BaseHook list"

text \<open>
  A node: its name, its bindings (the code guards against their absence, hence the
  option) and its children (likewise). A JavaScript object with string keys is an
  association list in insertion order.
\<close>

datatype MitosisNode =
  MitosisNode (name: string)
              (bindings: "(string \<times> Binding) list option")
              (children: "MitosisNode list option")

text \<open>
  \<open>json.state\<close> is an object \<open>{[key: string]: StateValue | undefined}\<close>:
  \<open>Object.entries\<close> lists it in insertion order (state keys are identifiers, never
  integer-like), and its keys are distinct. The field \<open>nodes\<close> is \<open>json.children\<close>, the
  node trees of the component.
\<close>

type_synonym State = "(string \<times> StateValue option) list"

record MitosisComponent =
  state :: State
  hooks :: Hooks
  nodes :: "MitosisNode list"

section \<open>JavaScript string primitives\<close>

text \<open>\<open>String.prototype.includes\<close>: does \<open>sub\<close> occur in \<open>s\<close> as a contiguous run.\<close>

fun includesStr :: "string \<Rightarrow> string \<Rightarrow> bool" where
  "includesStr [] sub = (sub = [])"
| "includesStr (c # cs) sub = (prefix sub (c # cs) \<or> includesStr cs sub)"

section \<open>Angular helpers: \<open>transformState\<close>\<close>

text \<open>\<open>json.state[key]!.code = c\<close>: the assignment through the key.\<close>

definition setStateCode :: "string \<Rightarrow> string \<Rightarrow> State \<Rightarrow> State" where
  "setStateCode key c st =
     map (\<lambda>(k, v). if k = key then (k, map_option (\<lambda>sv. sv\<lparr>code := c\<rparr>) v) else (k, v)) st"

text \<open>
  The body of the \<open>forEach\<close> callback of \<open>transformState\<close> (lines 72 to 83), on the entry
  \<open>[key, value]\<close> of the snapshot that \<open>Object.entries\<close> took. The helper
  \<open>stripStateAndPropsRefs\<close> is imported from a file that is not among the sources: it
  is the parameter \<open>strip\<close>, applied to the code and to the option \<open>replaceWith\<close>.
\<close>

definition transformEntry ::
  "(string \<Rightarrow> string \<Rightarrow> string) \<Rightarrow> string \<times> StateValue option \<Rightarrow> MitosisComponent \<Rightarrow> MitosisComponent"
where
  "transformEntry strip kv json =
     (case kv of (key, value) \<Rightarrow>
       (case value of
          None \<Rightarrow> json
        | Some v \<Rightarrow>
            if type v = Property then
              if code v \<noteq> [] \<and> (includesStr (code v) ''state.'' \<or> includesStr (code v) ''props.'') then
                let c = strip (code v) ''this'';
                    json1 = json\<lparr>state := setStateCode key ''null'' (state json)\<rparr>;
                    json2 = (if (case onInit (hooks json1) of None \<Rightarrow> True | Some h \<Rightarrow> code h = [])
                             then json1\<lparr>hooks := (hooks json1)\<lparr>onInit := Some \<lparr>code = []\<rparr>\<rparr>\<rparr>
                             else json1)
                in json2\<lparr>hooks := (hooks json2)\<lparr>onInit :=
                       map_option (\<lambda>h. h\<lparr>code := ''\<newline>this.'' @ key @ '' = '' @ c @ '';\<newline>'' @ code h\<rparr>)
                         (onInit (hooks json2))\<rparr>\<rparr>
              else json
            else json))"

text \<open>
  \<open>Object.entries(json.state).reverse().forEach(...)\<close>: the snapshot of the entries is
  walked from the last declared to the first, the component threaded through.
\<close>

definition transformState ::
  "(string \<Rightarrow> string \<Rightarrow> string) \<Rightarrow> MitosisComponent \<Rightarrow> MitosisComponent"
where
  "transformState strip json = fold (transformEntry strip) (rev (state json)) json"

text \<open>
  The guard of lines 73 and 74 as a predicate on the entry: the value is defined,
  its type is \<open>'property'\<close>, its code is truthy and mentions \<open>state.\<close> or \<open>props.\<close>.
\<close>

definition relocated :: "string \<times> StateValue option \<Rightarrow> bool" where
  "relocated kv =
     (case snd kv of
        None \<Rightarrow> False
      | Some v \<Rightarrow> type v = Property \<and> code v \<noteq> [] \<and>
                 (includesStr (code v) ''state.'' \<or> includesStr (code v) ''props.''))"

text \<open>The text that line 80 puts before the hook's code for a relocated entry.\<close>

definition initStatement ::
  "(string \<Rightarrow> string \<Rightarrow> string) \<Rightarrow> string \<times> StateValue option \<Rightarrow> string"
where
  "initStatement strip kv =
     (case snd kv of
        None \<Rightarrow> []
      | Some v \<Rightarrow> ''\<newline>this.'' @ fst kv @ '' = '' @ strip (code v) ''this'' @ '';\<newline>'')"

text \<open>\<open>hook?.code\<close>, with the empty string for an absent hook.\<close>

definition hookCode :: "BaseHook option \<Rightarrow> string" where
  "hookCode h = (case h of None \<Rightarrow> [] | Some x \<Rightarrow> code x)"

text \<open>An entry whose declared initializer is the placeholder \<open>'null'\<close>.\<close>

definition placeholder :: "string \<times> StateValue option \<Rightarrow> string \<times> StateValue option" where
  "placeholder kv = (fst kv, map_option (\<lambda>sv. sv\<lparr>code := ''null''\<rparr>) (snd kv))"

definition nullify ::
  "string set \<Rightarrow> string \<times> StateValue option \<Rightarrow> string \<times> StateValue option"
where
  "nullify K kv = (if fst kv \<in> K then placeholder kv else kv)"

text \<open>
  Reading a hook's text as a statement sequence: \<open>afterFirst s sub\<close> is what follows the
  first occurrence of \<open>sub\<close> in \<open>s\<close>, and \<open>assignsBefore c a b\<close> says that \<open>c\<close> holds an
  assignment to \<open>this.a\<close> and, after it, one to \<open>this.b\<close>.
\<close>

fun afterFirst :: "string \<Rightarrow> string \<Rightarrow> string option" where
  "afterFirst [] sub = (if sub = [] then Some [] else None)"
| "afterFirst (c # cs) sub =
     (if prefix sub (c # cs) then Some (drop (length sub) (c # cs)) else afterFirst cs sub)"

definition assignsBefore :: "string \<Rightarrow> string \<Rightarrow> string \<Rightarrow> bool" where
  "assignsBefore c a b =
     (case afterFirst c (''this.'' @ a @ '' = '') of
        None \<Rightarrow> False
      | Some rest \<Rightarrow> includesStr rest (''this.'' @ b @ '' = ''))"

text \<open>
  Modelled from the spec: \<open>stripStateAndPropsRefs\<close> (\<open>@/helpers/strip-state-and-props-refs\<close>)
  is not among the sources. Section 4.1 has it rewrite every state or prop reference to
  one receiver form; here each \<open>state.\<close> and each \<open>props.\<close> of the text becomes the
  receiver \<open>replaceWith\<close> followed by a dot, wherever it stands in the text (there is
  no word boundary, and the text is not printed anew). It only serves to run the pass
  on closed examples: the theorems about \<open>transformState\<close> hold for any helper.
\<close>

fun stripStateAndPropsRefs :: "string \<Rightarrow> string \<Rightarrow> string" where
  "stripStateAndPropsRefs [] replaceWith = []"
| "stripStateAndPropsRefs (c # cs) replaceWith =
     (if prefix ''state.'' (c # cs) \<or> prefix ''props.'' (c # cs)
      then replaceWith @ ''.'' @ stripStateAndPropsRefs (drop 5 cs) replaceWith
      else c # stripStateAndPropsRefs cs replaceWith)"

section \<open>Angular helpers: \<open>hasFirstChildKeyAttribute\<close>\<close>

text \<open>
  Lines 90 to 97. \<open>firstChildBinding.key\<close> is the lookup of the property \<open>key\<close>;
  \<open>Boolean\<close> of a string is true unless the string is empty.
\<close>

definition hasFirstChildKeyAttribute :: "MitosisNode \<Rightarrow> bool" where
  "hasFirstChildKeyAttribute node =
     (case children node of
        None \<Rightarrow> False
      | Some [] \<Rightarrow> False
      | Some (firstChild # _) \<Rightarrow>
          (case bindings firstChild of
             None \<Rightarrow> False
           | Some firstChildBinding \<Rightarrow>
               (case map_of firstChildBinding ''key'' of
                  None \<Rightarrow> False
                | Some b \<Rightarrow> code b \<noteq> [])))"

section \<open>React state helpers\<close>

text \<open>
  \<open>ToReactOptions\<close>: the state flavour (\<open>'useState'\<close> is the flavour of independent
  value and setter pairs) and the typed-output flag.
\<close>

datatype StateType = UseState | Mobx | Valtio | Solid | Builder | Variables

record ToReactOptions =
  stateType :: StateType
  typescript :: bool

subsection \<open>\<open>stripThisRefs\<close>\<close>

text \<open>The character class \<open>[a-zA-Z_\$0-9]\<close> of the regular expression of line 23.\<close>

definition identChar :: "char \<Rightarrow> bool" where
  "identChar c =
     (c \<in> set ''abcdefghijklmnopqrstuvwxyzABCDEFGHIJKLMNOPQRSTUVWXYZ_$0123456789'')"

text \<open>
  \<open>str.replace(/this\.([a-zA-Z_\$0-9]+)/g, '$1')\<close>: the text is scanned from the left;
  where \<open>this.\<close> is followed by at least one character of the class, the match takes
  the longest such run, only the run is kept, and the scan goes on after the match.
\<close>

function replaceThisRefs :: "string \<Rightarrow> string" where
  "replaceThisRefs [] = []"
| "replaceThisRefs (c # cs) =
     (if prefix ''this.'' (c # cs) \<and> takeWhile identChar (drop 4 cs) \<noteq> []
      then takeWhile identChar (drop 4 cs) @ replaceThisRefs (dropWhile identChar (drop 4 cs))
      else c # replaceThisRefs cs)"
  by pat_completeness auto
termination
proof (relation "measure length")
  show "wf (measure length)" by simp
next
  fix c :: char and cs :: string
  have "length (dropWhile identChar (drop 4 cs)) \<le> length (drop 4 cs)"
    by (rule length_dropWhile_le)
  then show "(dropWhile identChar (drop 4 cs), c # cs) \<in> measure length" by simp
next
  fix c :: char and cs :: string
  show "(cs, c # cs) \<in> measure length" by simp
qed

definition stripThisRefs :: "string \<Rightarrow> ToReactOptions \<Rightarrow> string" where
  "stripThisRefs str options =
     (if stateType options \<noteq> UseState then str else replaceThisRefs str)"

text \<open>
  A text cut into its receiver-prefixed references: \<open>withThis t0 rs\<close> is \<open>t0\<close> followed,
  for each pair \<open>(x, t)\<close> of \<open>rs\<close>, by \<open>this.x\<close> and the text \<open>t\<close>; \<open>withoutThis\<close> is the
  same text with the bare \<open>x\<close>. \<open>plainText t\<close>: no \<open>this.\<close> in \<open>t\<close>. \<open>refPieces rs\<close>: each
  \<open>x\<close> is a non-empty run of identifier characters that the following text does not
  prolong, and each text is plain.
\<close>

fun withThis :: "string \<Rightarrow> (string \<times> string) list \<Rightarrow> string" where
  "withThis t0 [] = t0"
| "withThis t0 ((x, t) # rs) = t0 @ ''this.'' @ x @ withThis t rs"

fun withoutThis :: "string \<Rightarrow> (string \<times> string) list \<Rightarrow> string" where
  "withoutThis t0 [] = t0"
| "withoutThis t0 ((x, t) # rs) = t0 @ x @ withoutThis t rs"

definition plainText :: "string \<Rightarrow> bool" where
  "plainText t = (\<not> includesStr t ''this.'')"

fun refPieces :: "(string \<times> string) list \<Rightarrow> bool" where
  "refPieces [] = True"
| "refPieces ((x, t) # rs) =
     (x \<noteq> [] \<and> list_all identChar x \<and> plainText t \<and>
      (case t of [] \<Rightarrow> rs = [] | c # _ \<Rightarrow> \<not> identChar c) \<and> refPieces rs)"

subsection \<open>Code fragments as syntax trees\<close>

text \<open>
  The expressions that the setter rewrite handles, as \<open>@babel/types\<close> names them. A
  numeric literal keeps its source text; an assignment is \<open>left = right\<close>.
\<close>

datatype expr =
    Identifier string
  | NumericLiteral string
  | ThisExpression
  | MemberExpression expr string
  | CallExpression expr "expr list"
  | BinaryExpression string expr expr
  | AssignmentExpression expr expr
  | ConditionalExpression expr expr expr

text \<open>
  The helpers that the React state helpers import from files that are not among the
  sources, and the external parser and printer. They are parameters of the model:
  \<open>parseExpression\<close> and \<open>generate\<close> are the parser and the printer that
  \<open>transformStateSetters\<close> goes through, \<open>stateFieldOf\<close> tells whether an expression is a
  direct reference to a state field and gives the field's name, \<open>capitalize\<close> is the
  helper of \<open>@/helpers/capitalize\<close>, \<open>processBinding\<close> is the helper of \<open>../helpers\<close>, and
  the last three are the helpers of the same names.
\<close>

record Helpers =
  parseExpression :: "string \<Rightarrow> expr"
  generate :: "expr \<Rightarrow> string"
  stateFieldOf :: "expr \<Rightarrow> string option"
  capitalize :: "string \<Rightarrow> string"
  processBinding :: "string \<Rightarrow> ToReactOptions \<Rightarrow> string"
  replaceGetterWithFunction :: "string \<Rightarrow> string"
  prefixWithFunction :: "string \<Rightarrow> string"
  getTypedFunction :: "string \<Rightarrow> bool \<Rightarrow> string option \<Rightarrow> string"

subsection \<open>Setter names\<close>

text \<open>Line 33: \<open>set\<close> followed by what the helper \<open>capitalize\<close> makes of the name.\<close>

definition getSetStateFnName :: "Helpers \<Rightarrow> string \<Rightarrow> string" where
  "getSetStateFnName H stateName = ''set'' @ capitalize H stateName"

subsection \<open>\<open>updateStateSettersInCode\<close> and \<open>updateStateSetters\<close>\<close>

text \<open>
  The transformer of lines 99 and 100: \<open>path.node\<close> is the assignment, given by its
  left and right operands, and the result is the call of the setter on
  \<open>path.node.right\<close>.
\<close>

definition setStateCall :: "Helpers \<Rightarrow> expr \<times> expr \<Rightarrow> string \<Rightarrow> expr" where
  "setStateCall H node propertyName =
     CallExpression (Identifier (getSetStateFnName H propertyName)) [snd node]"

text \<open>
  Modelled from the spec: \<open>transformStateSetters\<close> (\<open>@/helpers/transform-state-setters\<close>)
  is not among the sources. Section 4.2: in the code fragment, find the assignment
  expressions whose left-hand side is a direct reference to a known state field, and
  replace the whole assignment by what the transformer makes of it and of the field's
  name. Every assignment of the tree is visited, the inner ones first.
\<close>

fun rewriteAssignments ::
  "(expr \<Rightarrow> string option) \<Rightarrow> (expr \<times> expr \<Rightarrow> string \<Rightarrow> expr) \<Rightarrow> expr \<Rightarrow> expr"
where
  "rewriteAssignments sf tr (Identifier x) = Identifier x"
| "rewriteAssignments sf tr (NumericLiteral n) = NumericLiteral n"
| "rewriteAssignments sf tr ThisExpression = ThisExpression"
| "rewriteAssignments sf tr (MemberExpression e p) = MemberExpression (rewriteAssignments sf tr e) p"
| "rewriteAssignments sf tr (CallExpression f args) =
     CallExpression (rewriteAssignments sf tr f) (map (rewriteAssignments sf tr) args)"
| "rewriteAssignments sf tr (BinaryExpression oper a b) =
     BinaryExpression oper (rewriteAssignments sf tr a) (rewriteAssignments sf tr b)"
| "rewriteAssignments sf tr (AssignmentExpression l r) =
     (case sf l of
        Some propertyName \<Rightarrow> tr (l, rewriteAssignments sf tr r) propertyName
      | None \<Rightarrow> AssignmentExpression (rewriteAssignments sf tr l) (rewriteAssignments sf tr r))"
| "rewriteAssignments sf tr (ConditionalExpression c a b) =
     ConditionalExpression (rewriteAssignments sf tr c) (rewriteAssignments sf tr a)
       (rewriteAssignments sf tr b)"

definition transformStateSetters ::
  "Helpers \<Rightarrow> string \<Rightarrow> (expr \<times> expr \<Rightarrow> string \<Rightarrow> expr) \<Rightarrow> string"
where
  "transformStateSetters H value transformer =
     generate H (rewriteAssignments (stateFieldOf H) transformer (parseExpression H value))"

text \<open>\<open>hasStateAssignment sf e\<close>: some assignment inside \<open>e\<close> has a state field on its left.\<close>

fun hasStateAssignment :: "(expr \<Rightarrow> string option) \<Rightarrow> expr \<Rightarrow> bool" where
  "hasStateAssignment sf (Identifier x) = False"
| "hasStateAssignment sf (NumericLiteral n) = False"
| "hasStateAssignment sf ThisExpression = False"
| "hasStateAssignment sf (MemberExpression e p) = hasStateAssignment sf e"
| "hasStateAssignment sf (CallExpression f args) =
     (hasStateAssignment sf f \<or> list_ex (hasStateAssignment sf) args)"
| "hasStateAssignment sf (BinaryExpression oper a b) =
     (hasStateAssignment sf a \<or> hasStateAssignment sf b)"
| "hasStateAssignment sf (AssignmentExpression l r) =
     (sf l \<noteq> None \<or> hasStateAssignment sf l \<or> hasStateAssignment sf r)"
| "hasStateAssignment sf (ConditionalExpression c a b) =
     (hasStateAssignment sf c \<or> hasStateAssignment sf a \<or> hasStateAssignment sf b)"

text \<open>
  An expression with one hole, to speak of an assignment anywhere in a fragment: the
  hole stands for the object of a member expression, the callee or an argument of a
  call, an operand, the target or the assigned value of an assignment, or a branch of a
  conditional. \<open>plug C e\<close> puts \<open>e\<close> in the hole.
\<close>

datatype ctx =
    Hole
  | InObject ctx string
  | InCallee ctx "expr list"
  | InArgument expr "expr list" ctx "expr list"
  | InLeftOperand string ctx expr
  | InRightOperand string expr ctx
  | InTarget ctx expr
  | InAssigned expr ctx
  | InTest ctx expr expr
  | InConsequent expr ctx expr
  | InAlternate expr expr ctx

fun plug :: "ctx \<Rightarrow> expr \<Rightarrow> expr" where
  "plug Hole e = e"
| "plug (InObject C p) e = MemberExpression (plug C e) p"
| "plug (InCallee C args) e = CallExpression (plug C e) args"
| "plug (InArgument f before C after) e = CallExpression f (before @ plug C e # after)"
| "plug (InLeftOperand oper C b) e = BinaryExpression oper (plug C e) b"
| "plug (InRightOperand oper a C) e = BinaryExpression oper a (plug C e)"
| "plug (InTarget C r) e = AssignmentExpression (plug C e) r"
| "plug (InAssigned l C) e = AssignmentExpression l (plug C e)"
| "plug (InTest C a b) e = ConditionalExpression (plug C e) a b"
| "plug (InConsequent c C b) e = ConditionalExpression c (plug C e) b"
| "plug (InAlternate c a C) e = ConditionalExpression c a (plug C e)"

text \<open>
  \<open>targetsKept sf C e\<close>: no assignment that has the hole inside its target is itself an
  assignment to a state field (such an assignment is replaced by the setter call on
  its right-hand side, and its target is dropped).
\<close>

fun targetsKept :: "(expr \<Rightarrow> string option) \<Rightarrow> ctx \<Rightarrow> expr \<Rightarrow> bool" where
  "targetsKept sf Hole e = True"
| "targetsKept sf (InObject C p) e = targetsKept sf C e"
| "targetsKept sf (InCallee C args) e = targetsKept sf C e"
| "targetsKept sf (InArgument f before C after) e = targetsKept sf C e"
| "targetsKept sf (InLeftOperand oper C b) e = targetsKept sf C e"
| "targetsKept sf (InRightOperand oper a C) e = targetsKept sf C e"
| "targetsKept sf (InTarget C r) e = (sf (plug C e) = None \<and> targetsKept sf C e)"
| "targetsKept sf (InAssigned l C) e = targetsKept sf C e"
| "targetsKept sf (InTest C a b) e = targetsKept sf C e"
| "targetsKept sf (InConsequent c C b) e = targetsKept sf C e"
| "targetsKept sf (InAlternate c a C) e = targetsKept sf C e"

text \<open>
  What the rewrite with the transformer \<open>setStateCall\<close> makes of the surroundings of the
  hole: the expressions beside the hole are rewritten, and an assignment to a state
  field that has the hole in its right-hand side becomes the setter call with the hole
  as its argument.
\<close>

fun settersCtx :: "Helpers \<Rightarrow> ctx \<Rightarrow> ctx" where
  "settersCtx H Hole = Hole"
| "settersCtx H (InObject C p) = InObject (settersCtx H C) p"
| "settersCtx H (InCallee C args) =
     InCallee (settersCtx H C) (map (rewriteAssignments (stateFieldOf H) (setStateCall H)) args)"
| "settersCtx H (InArgument f before C after) =
     InArgument (rewriteAssignments (stateFieldOf H) (setStateCall H) f)
       (map (rewriteAssignments (stateFieldOf H) (setStateCall H)) before)
       (settersCtx H C)
       (map (rewriteAssignments (stateFieldOf H) (setStateCall H)) after)"
| "settersCtx H (InLeftOperand oper C b) =
     InLeftOperand oper (settersCtx H C) (rewriteAssignments (stateFieldOf H) (setStateCall H) b)"
| "settersCtx H (InRightOperand oper a C) =
     InRightOperand oper (rewriteAssignments (stateFieldOf H) (setStateCall H) a) (settersCtx H C)"
| "settersCtx H (InTarget C r) =
     InTarget (settersCtx H C) (rewriteAssignments (stateFieldOf H) (setStateCall H) r)"
| "settersCtx H (InAssigned l C) =
     (case stateFieldOf H l of
        Some propertyName \<Rightarrow>
          InArgument (Identifier (getSetStateFnName H propertyName)) [] (settersCtx H C) []
      | None \<Rightarrow>
          InAssigned (rewriteAssignments (stateFieldOf H) (setStateCall H) l) (settersCtx H C))"
| "settersCtx H (InTest C a b) =
     InTest (settersCtx H C) (rewriteAssignments (stateFieldOf H) (setStateCall H) a)
       (rewriteAssignments (stateFieldOf H) (setStateCall H) b)"
| "settersCtx H (InConsequent c C b) =
     InConsequent (rewriteAssignments (stateFieldOf H) (setStateCall H) c) (settersCtx H C)
       (rewriteAssignments (stateFieldOf H) (setStateCall H) b)"
| "settersCtx H (InAlternate c a C) =
     InAlternate (rewriteAssignments (stateFieldOf H) (setStateCall H) c)
       (rewriteAssignments (stateFieldOf H) (setStateCall H) a) (settersCtx H C)"

text \<open>Lines 93 to 102.\<close>

definition updateStateSettersInCode :: "Helpers \<Rightarrow> string \<Rightarrow> ToReactOptions \<Rightarrow> string" where
  "updateStateSettersInCode H value options =
     (if stateType options \<noteq> UseState then value
      else transformStateSetters H value (setStateCall H))"

text \<open>
  Lines 73 to 91. \<open>traverse(json).forEach\<close> reaches every node of the component; on each
  node, every binding whose code the rewrite changes is replaced by a copy with the
  new code.
\<close>

fun updateNode :: "(string \<Rightarrow> string) \<Rightarrow> MitosisNode \<Rightarrow> MitosisNode" where
  "updateNode f (MitosisNode n bs cs) =
     MitosisNode n
       (map_option (map (\<lambda>(key, values).
          if f (code values) \<noteq> code values then (key, values\<lparr>code := f (code values)\<rparr>)
          else (key, values))) bs)
       (map_option (map (updateNode f)) cs)"

definition updateStateSetters ::
  "Helpers \<Rightarrow> MitosisComponent \<Rightarrow> ToReactOptions \<Rightarrow> MitosisComponent"
where
  "updateStateSetters H json options =
     (if stateType options \<noteq> UseState then json
      else json\<lparr>nodes := map (updateNode (\<lambda>c. updateStateSettersInCode H c options)) (nodes json)\<rparr>)"

subsection \<open>\<open>processStateValue\<close> and \<open>getUseStateCode\<close>\<close>

text \<open>Lines 26 to 32.\<close>

definition processHookCode :: "Helpers \<Rightarrow> string \<Rightarrow> ToReactOptions \<Rightarrow> string" where
  "processHookCode H str options =
     processBinding H (updateStateSettersInCode H str options) options"

definition valueMapper :: "Helpers \<Rightarrow> ToReactOptions \<Rightarrow> string \<Rightarrow> string" where
  "valueMapper H options val = stripThisRefs (processHookCode H val options) options"

text \<open>
  Lines 35 to 64. \<open>stateVal.code || ''\<close> is the code itself, a string;
  \<open>options.typescript && stateVal.typeParameter\<close> is truthy when the flag is set and the
  type parameter is a non-empty string.
\<close>

definition processStateValue ::
  "Helpers \<Rightarrow> ToReactOptions \<Rightarrow> string \<times> StateValue option \<Rightarrow> string"
where
  "processStateValue H options kv =
     (case kv of (key, stateVal) \<Rightarrow>
       (case stateVal of
          None \<Rightarrow> []
        | Some sv \<Rightarrow>
            let val = code sv;
                stateTypeArg =
                  (case typeParameter sv of
                     None \<Rightarrow> []
                   | Some tp \<Rightarrow> if typescript options \<and> tp \<noteq> [] then ''<'' @ tp @ ''>'' else [])
            in if type sv = Getter then
                 getTypedFunction H (valueMapper H options (replaceGetterWithFunction H val))
                   (typescript options) (typeParameter sv)
               else if type sv = Function then
                 getTypedFunction H (valueMapper H options val)
                   (typescript options) (typeParameter sv)
               else if type sv = Method then
                 getTypedFunction H (valueMapper H options (prefixWithFunction H val))
                   (typescript options) (typeParameter sv)
               else ''const ['' @ key @ '', '' @ getSetStateFnName H key @ ''] = useState''
                      @ stateTypeArg @ ''(() => ('' @ valueMapper H options val @ ''))''))"

text \<open>\<open>Array.prototype.join\<close>.\<close>

fun join :: "string \<Rightarrow> string list \<Rightarrow> string" where
  "join sep [] = []"
| "join sep [x] = x"
| "join sep (x # y # ys) = x @ sep @ join sep (y # ys)"

definition getUseStateCode :: "Helpers \<Rightarrow> MitosisComponent \<Rightarrow> ToReactOptions \<Rightarrow> string" where
  "getUseStateCode H json options =
     join ''\<newline>\<newline>\<newline>'' (map (processStateValue H options) (state json))"

section \<open>Closed examples\<close>

text \<open>
  Components and helpers on which the model is run. \<open>exampleAB\<close> is the component of the
  order property of the specification: \<open>a\<close> has no reference, \<open>b\<close> refers to \<open>a\<close>, and
  there is no hook. In \<open>exampleABC\<close> both \<open>a\<close> and \<open>b\<close> hold a reference, \<open>c\<close> is a
  getter, and the init hook has code already. In \<open>examplePlain\<close> no entry is relocated.
\<close>

definition exampleAB :: MitosisComponent where
  "exampleAB =
     \<lparr>state = [(''a'', Some \<lparr>code = ''1'', type = Property, typeParameter = None\<rparr>),
               (''b'', Some \<lparr>code = ''state.a + 1'', type = Property, typeParameter = None\<rparr>)],
      hooks = \<lparr>onInit = None, onMount = []\<rparr>,
      nodes = []\<rparr>"

definition exampleABC :: MitosisComponent where
  "exampleABC =
     \<lparr>state = [(''a'', Some \<lparr>code = ''props.x'', type = Property, typeParameter = None\<rparr>),
               (''b'', Some \<lparr>code = ''state.a + 1'', type = Property, typeParameter = None\<rparr>),
               (''c'', Some \<lparr>code = ''return state.b'', type = Getter, typeParameter = None\<rparr>)],
      hooks = \<lparr>onInit = Some \<lparr>code = ''start();''\<rparr>, onMount = []\<rparr>,
      nodes = []\<rparr>"

definition examplePlain :: MitosisComponent where
  "examplePlain =
     \<lparr>state = [(''name'', Some \<lparr>code = ''1'', type = Property, typeParameter = None\<rparr>),
               (''shout'', Some \<lparr>code = ''return state.name.toUpperCase()'', type = Getter,
                                typeParameter = None\<rparr>)],
      hooks = \<lparr>onInit = None, onMount = [\<lparr>code = ''mounted();''\<rparr>]\<rparr>,
      nodes = []\<rparr>"

text \<open>
  Stand-ins for the external printer and parser: \<open>printExpr\<close> writes a tree back as
  text, and \<open>parseKnown\<close> knows the fragments of the examples (any other text is one
  leaf). \<open>stateMember\<close> takes \<open>state.<name>\<close> for a reference to the state field \<open>name\<close>:
  it is the form in which the documented inputs assign to state
  (\<open>state.text = props.text\<close>, which the documented output gives as
  \<open>setText(props.text)\<close>), and a bare identifier is not a state field for it.
  \<open>capitalizeAscii\<close> puts a first letter among \<open>a\<close> to \<open>z\<close> in upper case and is meant for
  names that begin with an ASCII character.
\<close>

fun printExpr :: "expr \<Rightarrow> string" where
  "printExpr (Identifier x) = x"
| "printExpr (NumericLiteral n) = n"
| "printExpr ThisExpression = ''this''"
| "printExpr (MemberExpression e p) = printExpr e @ ''.'' @ p"
| "printExpr (CallExpression f args) = printExpr f @ ''('' @ join '', '' (map printExpr args) @ '')''"
| "printExpr (BinaryExpression oper a b) = printExpr a @ '' '' @ oper @ '' '' @ printExpr b"
| "printExpr (AssignmentExpression l r) = printExpr l @ '' = '' @ printExpr r"
| "printExpr (ConditionalExpression c a b) =
     printExpr c @ '' ? '' @ printExpr a @ '' : '' @ printExpr b"

definition parseKnown :: "string \<Rightarrow> expr" where
  "parseKnown s =
     (if s = ''state.count = state.count + 1''
      then AssignmentExpression (MemberExpression (Identifier ''state'') ''count'')
             (BinaryExpression ''+'' (MemberExpression (Identifier ''state'') ''count'')
                (NumericLiteral ''1''))
      else if s = ''ready ? state.count = state.count + 1 : 0''
      then ConditionalExpression (Identifier ''ready'')
             (AssignmentExpression (MemberExpression (Identifier ''state'') ''count'')
                (BinaryExpression ''+'' (MemberExpression (Identifier ''state'') ''count'')
                   (NumericLiteral ''1'')))
             (NumericLiteral ''0'')
      else if s = ''state.count = state.total = 1''
      then AssignmentExpression (MemberExpression (Identifier ''state'') ''count'')
             (AssignmentExpression (MemberExpression (Identifier ''state'') ''total'')
                (NumericLiteral ''1''))
      else if s = ''count = count + 1''
      then AssignmentExpression (Identifier ''count'')
             (BinaryExpression ''+'' (Identifier ''count'') (NumericLiteral ''1''))
      else if s = ''0'' then NumericLiteral ''0''
      else Identifier s)"

definition stateMember :: "expr \<Rightarrow> string option" where
  "stateMember e =
     (case e of
        MemberExpression (Identifier x) p \<Rightarrow> if x = ''state'' then Some p else None
      | _ \<Rightarrow> None)"

definition toUpperCase :: "char \<Rightarrow> char" where
  "toUpperCase c =
     (case map_of (zip ''abcdefghijklmnopqrstuvwxyz'' ''ABCDEFGHIJKLMNOPQRSTUVWXYZ'') c of
        None \<Rightarrow> c
      | Some u \<Rightarrow> u)"

fun capitalizeAscii :: "string \<Rightarrow> string" where
  "capitalizeAscii [] = []"
| "capitalizeAscii (c # cs) = toUpperCase c # cs"

definition exampleHelpers :: Helpers where
  "exampleHelpers =
     \<lparr>parseExpression = parseKnown,
      generate = printExpr,
      stateFieldOf = stateMember,
      capitalize = capitalizeAscii,
      processBinding = (\<lambda>str options. str),
      replaceGetterWithFunction = (\<lambda>str. str),
      prefixWithFunction = (\<lambda>str. str),
      getTypedFunction = (\<lambda>str ts tp. str)\<rparr>"

definition exampleCounter :: MitosisComponent where
  "exampleCounter =
     \<lparr>state = [(''count'', Some \<lparr>code = ''0'', type = Property, typeParameter = Some ''number''\<rparr>)],
      hooks = \<lparr>onInit = None, onMount = []\<rparr>,
      nodes = [MitosisNode ''button''
                 (Some [(''onClick'', \<lparr>code = ''state.count = state.count + 1'',
                                       arguments = Some [''event'']\<rparr>)])
                 (Some [])]\<rparr>"

section \<open>Properties of \<open>transformState\<close>\<close>

subsection \<open>One entry\<close>

lemma transformEntry_skip: "\<not> relocated kv \<Longrightarrow> transformEntry strip kv json = json"
  by (cases kv) (auto simp: transformEntry_def relocated_def split: option.splits)

lemma transformEntry_move:
  "relocated kv \<Longrightarrow>
   transformEntry strip kv json =
     json\<lparr>state := setStateCode (fst kv) ''null'' (state json),
          hooks := (hooks json)\<lparr>onInit :=
            Some \<lparr>code = initStatement strip kv @ hookCode (onInit (hooks json))\<rparr>\<rparr>\<rparr>"
  by (cases kv)
     (auto simp: transformEntry_def relocated_def initStatement_def hookCode_def Let_def
           split: option.splits)

subsection \<open>The whole pass\<close>

text \<open>
  Walking the reversed snapshot with \<open>fold\<close> is \<open>foldr\<close> over the snapshot, so the pass
  is analysed by induction on the entries, first declared outermost.
\<close>

lemma transformState_foldr:
  "transformState strip json = foldr (transformEntry strip) (state json) json"
  by (simp add: transformState_def foldr_conv_fold)

lemma hookCode_simps [simp]: "hookCode None = []" "hookCode (Some h) = code h"
  by (simp_all add: hookCode_def)

lemma foldr_onInit:
  "onInit (hooks (foldr (transformEntry strip) es json)) =
     (if filter relocated es = [] then onInit (hooks json)
      else Some \<lparr>code = concat (map (initStatement strip) (filter relocated es))
                          @ hookCode (onInit (hooks json))\<rparr>)"
proof (induction es)
  case Nil
  show ?case by simp
next
  case (Cons e es)
  show ?case
  proof (cases "relocated e")
    case True
    then show ?thesis using Cons.IH
      by (simp add: transformEntry_move hookCode_def)
  next
    case False
    then show ?thesis using Cons.IH by (simp add: transformEntry_skip)
  qed
qed

lemma foldr_skip:
  "filter relocated es = [] \<Longrightarrow> foldr (transformEntry strip) es json = json"
  by (induction es) (auto simp: transformEntry_skip split: if_splits)

lemma setStateCode_nullify:
  "setStateCode k ''null'' (map (nullify K) st) = map (nullify (insert k K)) st"
  by (auto simp: setStateCode_def nullify_def placeholder_def option.map_comp o_def
           split: prod.splits)

lemma foldr_state:
  "state (foldr (transformEntry strip) es json) =
     map (nullify (fst ` set (filter relocated es))) (state json)"
proof (induction es)
  case Nil
  show ?case by (simp add: nullify_def)
next
  case (Cons e es)
  show ?case
  proof (cases "relocated e")
    case True
    then show ?thesis using Cons.IH
      by (simp add: transformEntry_move setStateCode_nullify)
  next
    case False
    then show ?thesis using Cons.IH by (simp add: transformEntry_skip)
  qed
qed

lemma includesStr_sublist: "includesStr s sub = sublist sub s"
  by (induction s) (simp_all add: sublist_Cons_right)

lemma placeholder_not_relocated: "\<not> relocated (placeholder kv)"
  by (cases kv) (auto simp: relocated_def placeholder_def split: option.splits)

lemma nullify_not_relocated:
  "fst ` set (filter relocated st) \<subseteq> K \<Longrightarrow> kv \<in> set st \<Longrightarrow> \<not> relocated (nullify K kv)"
  by (auto simp: nullify_def placeholder_not_relocated)

lemma transformState_none_left:
  "filter relocated (state (transformState strip json)) = []"
proof -
  have "\<forall>kv \<in> set (state json).
          \<not> relocated (nullify (fst ` set (filter relocated (state json))) kv)"
    using nullify_not_relocated [of "state json"] by blast
  then show ?thesis
    by (simp add: transformState_foldr foldr_state filter_empty_conv)
qed

lemma relocated_key:
  assumes "distinct (map fst st)" and "kv \<in> set st"
  shows "(fst kv \<in> fst ` set (filter relocated st)) = relocated kv"
proof
  assume "fst kv \<in> fst ` set (filter relocated st)"
  then obtain kv' where kv': "kv' \<in> set st" "relocated kv'" "fst kv' = fst kv"
    by auto
  from assms(1) have "inj_on fst (set st)" by (simp add: distinct_map)
  with kv' assms(2) have "kv' = kv" by (auto dest: inj_onD)
  with kv' show "relocated kv" by simp
next
  assume "relocated kv"
  with assms(2) show "fst kv \<in> fst ` set (filter relocated st)" by force
qed

lemma transformState_state:
  assumes "distinct (map fst (state json))"
  shows "state (transformState strip json) =
           map (\<lambda>kv. if relocated kv then placeholder kv else kv) (state json)"
  unfolding transformState_foldr foldr_state
proof (rule map_cong [OF refl])
  fix kv
  assume "kv \<in> set (state json)"
  then have "(fst kv \<in> fst ` set (filter relocated (state json))) = relocated kv"
    by (rule relocated_key [OF assms])
  then show "nullify (fst ` set (filter relocated (state json))) kv =
             (if relocated kv then placeholder kv else kv)"
    unfolding nullify_def by (simp only:)
qed

lemma transformState_onInit:
  "onInit (hooks (transformState strip json)) =
     (if filter relocated (state json) = [] then onInit (hooks json)
      else Some \<lparr>code = concat (map (initStatement strip) (filter relocated (state json)))
                          @ hookCode (onInit (hooks json))\<rparr>)"
  by (simp only: transformState_foldr foldr_onInit)

lemma transformState_hookCode:
  "hookCode (onInit (hooks (transformState strip json))) =
     concat (map (initStatement strip) (filter relocated (state json)))
       @ hookCode (onInit (hooks json))"
  by (simp add: transformState_onInit hookCode_def)

lemma filter_split_nth:
  "i < length xs \<Longrightarrow> P (xs ! i) \<Longrightarrow>
   filter P xs = filter P (take i xs) @ xs ! i # filter P (drop (Suc i) xs)"
proof -
  assume a: "i < length xs" "P (xs ! i)"
  have "filter P xs = filter P (take i xs @ xs ! i # drop (Suc i) xs)"
    using a(1) by (simp add: id_take_nth_drop [symmetric])
  then show ?thesis using a(2) by simp
qed

lemma afterFirst_append:
  "\<exists>rest. afterFirst (p @ sub @ r) sub = Some rest \<and> suffix r rest"
proof (induction p)
  case Nil
  show ?case
  proof (cases "sub @ r")
    case Nil
    then show ?thesis by simp
  next
    case (Cons a l)
    have "prefix sub (sub @ r)" by simp
    moreover have "drop (length sub) (sub @ r) = r" by simp
    ultimately show ?thesis
      unfolding Cons [symmetric] using Cons by (cases "sub @ r") simp_all
  qed
next
  case (Cons c p)
  show ?case
  proof (cases "prefix sub (c # p @ sub @ r)")
    case True
    have "length sub \<le> length (c # p @ sub)" by simp
    then have "drop (length sub) ((c # p @ sub) @ r) = drop (length sub) (c # p @ sub) @ r"
      by (simp only: drop_append) simp
    then have "suffix r (drop (length sub) (c # p @ sub @ r))"
      by (simp add: suffix_def)
    with True show ?thesis by simp
  next
    case False
    with Cons.IH show ?thesis by simp
  qed
qed

lemma assignsBefore_pieces:
  "assignsBefore (p @ (''this.'' @ a @ '' = '') @ m @ (''this.'' @ b @ '' = '') @ q) a b"
proof -
  obtain rest where rest:
    "afterFirst (p @ (''this.'' @ a @ '' = '') @ m @ (''this.'' @ b @ '' = '') @ q)
       (''this.'' @ a @ '' = '') = Some rest"
    "suffix (m @ (''this.'' @ b @ '' = '') @ q) rest"
    using afterFirst_append by blast
  from rest(2) obtain u where "rest = u @ m @ (''this.'' @ b @ '' = '') @ q"
    by (auto simp: suffix_def)
  then have "rest = (u @ m) @ (''this.'' @ b @ '' = '') @ q" by simp
  then have "sublist (''this.'' @ b @ '' = '') rest"
    unfolding sublist_def by blast
  with rest(1) show ?thesis
    by (simp add: assignsBefore_def includesStr_sublist)
qed

lemma initStatement_relocated:
  "relocated kv \<Longrightarrow>
   \<exists>x. initStatement strip kv = ''\<newline>'' @ (''this.'' @ fst kv @ '' = '') @ x"
  by (auto simp: relocated_def initStatement_def split: option.splits)

subsection \<open>Relocation of an entry\<close>

text \<open>
  C1. In a component whose state keys are distinct, take a value entry (type
  \<open>'property'\<close>) whose code is not empty and mentions \<open>state.\<close> or \<open>props.\<close>. After the pass
  its code is the placeholder \<open>'null'\<close>, and the init hook holds the statement
  \<open>this.<key> = <code with the references rewritten for the receiver 'this'>;\<close>, on a line
  of its own, in front of the statements of the entries declared after it and of the
  code that the hook had: the statement was put before the code that the hook had when
  the entry was visited. The statements of the entries declared before it come in front.
\<close>

theorem transformState_relocates:
  assumes "distinct (map fst (state json))"
    and "i < length (state json)"
    and "state json ! i = (key, Some v)"
    and "type v = Property"
    and "code v \<noteq> []"
    and "includesStr (code v) ''state.'' \<or> includesStr (code v) ''props.''"
  shows "state (transformState strip json) ! i = (key, Some (v\<lparr>code := ''null''\<rparr>)) \<and>
         onInit (hooks (transformState strip json)) =
           Some \<lparr>code =
             concat (map (initStatement strip) (filter relocated (take i (state json))))
             @ (''\<newline>this.'' @ key @ '' = '' @ strip (code v) ''this'' @ '';\<newline>'')
             @ concat (map (initStatement strip) (filter relocated (drop (Suc i) (state json))))
             @ hookCode (onInit (hooks json))\<rparr>"
proof -
  have rel: "relocated (state json ! i)"
    using assms(3-6) by (simp add: relocated_def)
  have st: "state (transformState strip json) ! i = (key, Some (v\<lparr>code := ''null''\<rparr>))"
    using assms(2,3) rel by (simp add: transformState_state [OF assms(1)] placeholder_def)
  have split: "filter relocated (state json) =
      filter relocated (take i (state json)) @ state json ! i
        # filter relocated (drop (Suc i) (state json))"
    using assms(2) rel by (rule filter_split_nth)
  have stmt: "initStatement strip (state json ! i) =
      ''\<newline>this.'' @ key @ '' = '' @ strip (code v) ''this'' @ '';\<newline>''"
    using assms(3) by (simp add: initStatement_def)
  have ne: "filter relocated (state json) \<noteq> []"
    using split by simp
  have "concat (map (initStatement strip) (filter relocated (state json))) =
      concat (map (initStatement strip) (filter relocated (take i (state json))))
      @ (''\<newline>this.'' @ key @ '' = '' @ strip (code v) ''this'' @ '';\<newline>'')
      @ concat (map (initStatement strip) (filter relocated (drop (Suc i) (state json))))"
    by (subst split) (simp add: stmt)
  then show ?thesis using st ne by (simp add: transformState_onInit)
qed

theorem transformState_relocates_witness:
  "distinct (map fst (state exampleABC)) \<and>
   state exampleABC ! 1 = (''b'', Some \<lparr>code = ''state.a + 1'', type = Property, typeParameter = None\<rparr>) \<and>
   state (transformState stripStateAndPropsRefs exampleABC) ! 1 =
     (''b'', Some \<lparr>code = ''null'', type = Property, typeParameter = None\<rparr>) \<and>
   onInit (hooks (transformState stripStateAndPropsRefs exampleABC)) =
     Some \<lparr>code = ''\<newline>this.a = this.x;\<newline>\<newline>this.b = this.a + 1;\<newline>start();''\<rparr>"
  using transformState_relocates [where json = exampleABC and i = 1 and key = "''b''"
      and v = "\<lparr>code = ''state.a + 1'', type = Property, typeParameter = None\<rparr>"
      and strip = stripStateAndPropsRefs]
  by (simp add: exampleABC_def relocated_def initStatement_def)

subsection \<open>Order of the relocated statements\<close>

text \<open>
  C2, as amended. The code of the init hook after the pass is the statements of the
  relocated entries, in the order in which the entries are declared, followed by the
  code that the hook had. Hence, of two relocated entries, the one declared first is
  assigned first. An entry without reference is not relocated and gets no statement.
\<close>

theorem transformState_declaration_order:
  assumes "i < j"
    and "j < length (state json)"
    and "relocated (state json ! i)"
    and "relocated (state json ! j)"
  shows "hookCode (onInit (hooks (transformState strip json))) =
           concat (map (initStatement strip) (filter relocated (state json)))
             @ hookCode (onInit (hooks json)) \<and>
         assignsBefore (hookCode (onInit (hooks (transformState strip json))))
           (fst (state json ! i)) (fst (state json ! j))"
proof -
  let ?st = "state json"
  let ?rest = "drop (Suc i) ?st"
  have i: "i < length ?st" using assms(1,2) by simp
  have j': "j - Suc i < length ?rest" using assms(1,2) by simp
  have nth: "?rest ! (j - Suc i) = ?st ! j" using assms(1,2) by simp
  have s1: "filter relocated ?st =
      filter relocated (take i ?st) @ ?st ! i # filter relocated ?rest"
    using i assms(3) by (rule filter_split_nth)
  have s2: "filter relocated ?rest =
      filter relocated (take (j - Suc i) ?rest) @ ?st ! j
        # filter relocated (drop (Suc (j - Suc i)) ?rest)"
    using filter_split_nth [OF j', of relocated] assms(4) nth by simp
  obtain x where x: "initStatement strip (?st ! i) =
      ''\<newline>'' @ (''this.'' @ fst (?st ! i) @ '' = '') @ x"
    using initStatement_relocated [OF assms(3)] by blast
  obtain y where y: "initStatement strip (?st ! j) =
      ''\<newline>'' @ (''this.'' @ fst (?st ! j) @ '' = '') @ y"
    using initStatement_relocated [OF assms(4)] by blast
  define p where "p = concat (map (initStatement strip) (filter relocated (take i ?st))) @ ''\<newline>''"
  define m where "m = x @ concat (map (initStatement strip)
      (filter relocated (take (j - Suc i) ?rest))) @ ''\<newline>''"
  define q where "q = y @ concat (map (initStatement strip)
      (filter relocated (drop (Suc (j - Suc i)) ?rest))) @ hookCode (onInit (hooks json))"
  have code: "hookCode (onInit (hooks (transformState strip json))) =
      concat (map (initStatement strip) (filter relocated ?st)) @ hookCode (onInit (hooks json))"
    by (rule transformState_hookCode)
  have "concat (map (initStatement strip) (filter relocated ?st)) @ hookCode (onInit (hooks json)) =
      p @ (''this.'' @ fst (?st ! i) @ '' = '') @ m @ (''this.'' @ fst (?st ! j) @ '' = '') @ q"
    by (subst s1, subst s2) (simp add: x y p_def m_def q_def)
  then have "assignsBefore (hookCode (onInit (hooks (transformState strip json))))
      (fst (?st ! i)) (fst (?st ! j))"
    using assignsBefore_pieces [of p "fst (?st ! i)" m "fst (?st ! j)" q] code by simp
  with code show ?thesis by simp
qed

theorem transformState_declaration_order_witness:
  "relocated (state exampleABC ! 0) \<and> relocated (state exampleABC ! 1) \<and>
   hookCode (onInit (hooks (transformState stripStateAndPropsRefs exampleABC))) =
     ''\<newline>this.a = this.x;\<newline>\<newline>this.b = this.a + 1;\<newline>start();'' \<and>
   assignsBefore (hookCode (onInit (hooks (transformState stripStateAndPropsRefs exampleABC))))
     ''a'' ''b''"
  using transformState_declaration_order [where json = exampleABC and i = 0 and j = 1
      and strip = stripStateAndPropsRefs]
  by (simp add: exampleABC_def relocated_def initStatement_def assignsBefore_def)

text \<open>
  C2 as stated fails: in \<open>exampleAB\<close> the entry \<open>a\<close> has no reference and \<open>b\<close> refers to
  \<open>a\<close>; the init hook after the pass is the single statement for \<open>b\<close> and assigns
  nothing to \<open>a\<close>.
\<close>

theorem transformState_order_counterexample:
  "\<not> relocated (state exampleAB ! 0) \<and> relocated (state exampleAB ! 1) \<and>
   hookCode (onInit (hooks (transformState stripStateAndPropsRefs exampleAB))) =
     ''\<newline>this.b = this.a + 1;\<newline>'' \<and>
   \<not> assignsBefore (hookCode (onInit (hooks (transformState stripStateAndPropsRefs exampleAB))))
     ''a'' ''b''"
  unfolding transformState_hookCode
  by (simp add: exampleAB_def relocated_def initStatement_def assignsBefore_def)

subsection \<open>Idempotence\<close>

text \<open>
  C3. Running the pass on its own result changes nothing: state entries, hooks and
  nodes of the second result are those of the first.
\<close>

theorem transformState_idempotent:
  "transformState strip (transformState strip json) = transformState strip json"
proof -
  have "filter relocated (state (transformState strip json)) = []"
    by (rule transformState_none_left)
  then show ?thesis
    using transformState_foldr [of strip "transformState strip json"]
    by (simp add: foldr_skip)
qed

subsection \<open>What the pass leaves alone\<close>

text \<open>
  C7. In a component whose state keys are distinct, an entry that is undefined, or
  whose type is not \<open>'property'\<close> (a getter, a method, a function), or whose code is
  empty or mentions neither \<open>state.\<close> nor \<open>props.\<close>, is the same after the pass; and when
  no entry of the component is relocated, the pass returns the component as it was,
  hooks included.
\<close>

theorem transformState_frame:
  assumes "distinct (map fst (state json))"
    and "i < length (state json)"
    and "state json ! i = (key, stateVal)"
    and "stateVal = None \<or> (\<exists>v. stateVal = Some v \<and>
           (type v \<noteq> Property \<or> code v = [] \<or>
            \<not> (includesStr (code v) ''state.'' \<or> includesStr (code v) ''props.'')))"
  shows "state (transformState strip json) ! i = state json ! i \<and>
         (filter relocated (state json) = [] \<longrightarrow> transformState strip json = json)"
proof -
  have "\<not> relocated (state json ! i)"
    using assms(3,4) by (auto simp: relocated_def)
  then have "state (transformState strip json) ! i = state json ! i"
    using assms(2) by (simp add: transformState_state [OF assms(1)])
  moreover have "filter relocated (state json) = [] \<longrightarrow> transformState strip json = json"
    by (simp add: transformState_foldr foldr_skip)
  ultimately show ?thesis by simp
qed

theorem transformState_frame_witness:
  "distinct (map fst (state examplePlain)) \<and>
   filter relocated (state examplePlain) = [] \<and>
   state (transformState stripStateAndPropsRefs examplePlain) ! 1 = state examplePlain ! 1 \<and>
   transformState stripStateAndPropsRefs examplePlain = examplePlain"
  using transformState_frame [where json = examplePlain and i = 1 and key = "''shout''"
      and stateVal = "Some \<lparr>code = ''return state.name.toUpperCase()'', type = Getter,
                          typeParameter = None\<rparr>"
      and strip = stripStateAndPropsRefs]
  by (simp add: examplePlain_def relocated_def)

subsection \<open>The init hook\<close>

text \<open>
  C10. When some entry is relocated, the init hook exists after the pass, whether or not
  it existed before; its code begins with the statement of the first relocated entry
  and ends with the code that the hook had (nothing, when the hook was absent or
  empty).
\<close>

theorem transformState_creates_onInit:
  assumes "kv \<in> set (state json)" and "relocated kv"
  shows "onInit (hooks (transformState strip json)) =
           Some \<lparr>code = concat (map (initStatement strip) (filter relocated (state json)))
                          @ hookCode (onInit (hooks json))\<rparr> \<and>
         prefix (initStatement strip (hd (filter relocated (state json))))
           (concat (map (initStatement strip) (filter relocated (state json)))) \<and>
         suffix (hookCode (onInit (hooks json)))
           (hookCode (onInit (hooks (transformState strip json))))"
proof -
  have ne: "filter relocated (state json) \<noteq> []"
    using assms by (auto simp: filter_empty_conv)
  then obtain e es where es: "filter relocated (state json) = e # es"
    by (cases "filter relocated (state json)") auto
  have "prefix (initStatement strip (hd (filter relocated (state json))))
          (concat (map (initStatement strip) (filter relocated (state json))))"
    by (simp add: es)
  moreover have "suffix (hookCode (onInit (hooks json)))
          (hookCode (onInit (hooks (transformState strip json))))"
    by (simp add: transformState_hookCode suffix_def)
  ultimately show ?thesis using ne by (simp add: transformState_onInit)
qed

theorem transformState_creates_onInit_witness:
  "onInit (hooks exampleAB) = None \<and>
   relocated (''b'', Some \<lparr>code = ''state.a + 1'', type = Property, typeParameter = None\<rparr>) \<and>
   onInit (hooks (transformState stripStateAndPropsRefs exampleAB)) =
     Some \<lparr>code = ''\<newline>this.b = this.a + 1;\<newline>''\<rparr> \<and>
   onInit (hooks (transformState stripStateAndPropsRefs exampleABC)) =
     Some \<lparr>code = ''\<newline>this.a = this.x;\<newline>\<newline>this.b = this.a + 1;\<newline>start();''\<rparr>"
  using transformState_creates_onInit [where json = exampleAB
      and kv = "(''b'', Some \<lparr>code = ''state.a + 1'', type = Property, typeParameter = None\<rparr>)"
      and strip = stripStateAndPropsRefs]
    transformState_creates_onInit [where json = exampleABC
      and kv = "(''b'', Some \<lparr>code = ''state.a + 1'', type = Property, typeParameter = None\<rparr>)"
      and strip = stripStateAndPropsRefs]
  by (simp add: exampleAB_def exampleABC_def relocated_def initStatement_def)

section \<open>Properties of \<open>hasFirstChildKeyAttribute\<close>\<close>

text \<open>
  C6. The function answers true exactly when the node has a first child, this child
  has bindings, the binding \<open>key\<close> is among them and its code is not empty. So it answers
  false for a node without children, for a first child without the binding, and for a
  first child whose \<open>key\<close> code is the empty string.
\<close>

theorem hasFirstChildKeyAttribute_iff:
  "hasFirstChildKeyAttribute node =
     (\<exists>firstChild rest bs b.
        children node = Some (firstChild # rest) \<and> bindings firstChild = Some bs \<and>
        map_of bs ''key'' = Some b \<and> code b \<noteq> [])"
proof (cases "children node")
  case None
  then show ?thesis by (simp add: hasFirstChildKeyAttribute_def)
next
  case (Some cs)
  show ?thesis
  proof (cases cs)
    case Nil
    with Some show ?thesis by (simp add: hasFirstChildKeyAttribute_def)
  next
    case (Cons c rest)
    show ?thesis
    proof (cases "bindings c")
      case None
      with Some Cons show ?thesis by (simp add: hasFirstChildKeyAttribute_def)
    next
      case bs: (Some bs)
      with Some Cons show ?thesis
        by (cases "map_of bs ''key''") (simp_all add: hasFirstChildKeyAttribute_def)
    qed
  qed
qed

text \<open>The three cases of the specification.\<close>

lemma hasFirstChildKeyAttribute_cases:
  "hasFirstChildKeyAttribute
     (MitosisNode ''For'' (Some [])
        (Some [MitosisNode ''li'' (Some [(''key'', \<lparr>code = ''id'', arguments = None\<rparr>)]) None]))"
  "\<not> hasFirstChildKeyAttribute (MitosisNode ''For'' (Some []) (Some []))"
  "\<not> hasFirstChildKeyAttribute (MitosisNode ''For'' (Some []) None)"
  "\<not> hasFirstChildKeyAttribute
     (MitosisNode ''For'' (Some [])
        (Some [MitosisNode ''li'' (Some [(''key'', \<lparr>code = [], arguments = None\<rparr>)]) None]))"
  "\<not> hasFirstChildKeyAttribute
     (MitosisNode ''For'' (Some [])
        (Some [MitosisNode ''li'' (Some [(''class'', \<lparr>code = ''id'', arguments = None\<rparr>)]) None]))"
  by (simp_all add: hasFirstChildKeyAttribute_def)

section \<open>Properties of the setter rewrite\<close>

lemma rewriteAssignments_id:
  "\<not> hasStateAssignment sf e \<Longrightarrow> rewriteAssignments sf tr e = e"
  by (induction e) (auto simp: list_ex_iff map_idI)

lemma rewriteAssignments_plug:
  "targetsKept (stateFieldOf H) C e \<Longrightarrow>
   rewriteAssignments (stateFieldOf H) (setStateCall H) (plug C e) =
     plug (settersCtx H C) (rewriteAssignments (stateFieldOf H) (setStateCall H) e)"
proof (induction C)
  case (InAssigned l C)
  show ?case
  proof (cases "stateFieldOf H l")
    case None
    with InAssigned show ?thesis by simp
  next
    case (Some propertyName)
    have "setStateCall H (l, rewriteAssignments (stateFieldOf H) (setStateCall H) (plug C e))
            propertyName =
          CallExpression (Identifier (getSetStateFnName H propertyName))
            [rewriteAssignments (stateFieldOf H) (setStateCall H) (plug C e)]"
      by (simp only: setStateCall_def snd_conv)
    with InAssigned Some show ?thesis by simp
  qed
qed simp_all

text \<open>
  C4, as amended. Under the flavour \<open>'useState'\<close>, an assignment with a state field on its
  left, wherever it stands in the fragment, becomes the call of the field's setter,
  named \<open>set\<close> followed by the capitalized field name, with one argument: the right-hand
  side, in which the assignments to state fields are rewritten in the same way. When
  the right-hand side holds no such assignment, it is the argument verbatim. What
  surrounds the assignment keeps its shape.
\<close>

theorem updateStateSettersInCode_setter:
  assumes "stateType options = UseState"
    and "parseExpression H fragment = plug C (AssignmentExpression l r)"
    and "targetsKept (stateFieldOf H) C (AssignmentExpression l r)"
    and "stateFieldOf H l = Some field"
  shows "updateStateSettersInCode H fragment options =
           generate H (plug (settersCtx H C)
             (CallExpression (Identifier (''set'' @ capitalize H field))
                [rewriteAssignments (stateFieldOf H) (setStateCall H) r])) \<and>
         (\<not> hasStateAssignment (stateFieldOf H) r \<longrightarrow>
            rewriteAssignments (stateFieldOf H) (setStateCall H) r = r)"
proof -
  have "rewriteAssignments (stateFieldOf H) (setStateCall H) (AssignmentExpression l r) =
        CallExpression (Identifier (''set'' @ capitalize H field))
          [rewriteAssignments (stateFieldOf H) (setStateCall H) r]"
    using assms(4) by (simp add: setStateCall_def getSetStateFnName_def)
  then have "updateStateSettersInCode H fragment options =
        generate H (plug (settersCtx H C)
          (CallExpression (Identifier (''set'' @ capitalize H field))
             [rewriteAssignments (stateFieldOf H) (setStateCall H) r]))"
    using assms(1,2) rewriteAssignments_plug [OF assms(3)]
    by (simp add: updateStateSettersInCode_def transformStateSetters_def)
  then show ?thesis by (simp add: rewriteAssignments_id)
qed

theorem updateStateSettersInCode_setter_witness:
  "parseExpression exampleHelpers ''state.count = state.count + 1'' =
     plug Hole (AssignmentExpression (MemberExpression (Identifier ''state'') ''count'')
       (BinaryExpression ''+'' (MemberExpression (Identifier ''state'') ''count'')
          (NumericLiteral ''1''))) \<and>
   stateFieldOf exampleHelpers (MemberExpression (Identifier ''state'') ''count'') = Some ''count'' \<and>
   \<not> hasStateAssignment (stateFieldOf exampleHelpers)
       (BinaryExpression ''+'' (MemberExpression (Identifier ''state'') ''count'')
          (NumericLiteral ''1'')) \<and>
   updateStateSettersInCode exampleHelpers ''state.count = state.count + 1''
     \<lparr>stateType = UseState, typescript = False\<rparr> = ''setCount(state.count + 1)'' \<and>
   updateStateSettersInCode exampleHelpers ''ready ? state.count = state.count + 1 : 0''
     \<lparr>stateType = UseState, typescript = False\<rparr> = ''ready ? setCount(state.count + 1) : 0''"
  using updateStateSettersInCode_setter [where H = exampleHelpers
      and options = "\<lparr>stateType = UseState, typescript = False\<rparr>"
      and fragment = "''state.count = state.count + 1''" and C = Hole
      and l = "MemberExpression (Identifier ''state'') ''count''"
      and r = "BinaryExpression ''+'' (MemberExpression (Identifier ''state'') ''count'')
                 (NumericLiteral ''1'')"
      and field = "''count''"]
    updateStateSettersInCode_setter [where H = exampleHelpers
      and options = "\<lparr>stateType = UseState, typescript = False\<rparr>"
      and fragment = "''ready ? state.count = state.count + 1 : 0''"
      and C = "InConsequent (Identifier ''ready'') Hole (NumericLiteral ''0'')"
      and l = "MemberExpression (Identifier ''state'') ''count''"
      and r = "BinaryExpression ''+'' (MemberExpression (Identifier ''state'') ''count'')
                 (NumericLiteral ''1'')"
      and field = "''count''"]
  by (simp add: exampleHelpers_def parseKnown_def stateMember_def toUpperCase_def)

text \<open>
  C4 as stated fails on two counts. The right-hand side is not always the argument
  verbatim: in \<open>state.count = state.total = 1\<close> the right-hand side is itself an
  assignment to a state field, and the argument of \<open>setCount\<close> is \<open>setTotal(1)\<close>, not
  \<open>state.total = 1\<close>. And with \<open>state.<name>\<close> as the reference to a state field, the
  fragment \<open>count = count + 1\<close> has no state field on its left and is returned as it is.
\<close>

theorem updateStateSettersInCode_nested_counterexample:
  "updateStateSettersInCode exampleHelpers ''state.count = state.total = 1''
     \<lparr>stateType = UseState, typescript = False\<rparr> = ''setCount(setTotal(1))'' \<and>
   updateStateSettersInCode exampleHelpers ''state.count = state.total = 1''
     \<lparr>stateType = UseState, typescript = False\<rparr> \<noteq> ''setCount(state.total = 1)'' \<and>
   updateStateSettersInCode exampleHelpers ''count = count + 1''
     \<lparr>stateType = UseState, typescript = False\<rparr> = ''count = count + 1''"
  by (simp add: updateStateSettersInCode_def transformStateSetters_def setStateCall_def
        getSetStateFnName_def exampleHelpers_def parseKnown_def stateMember_def
        toUpperCase_def)

text \<open>The handler of \<open>exampleCounter\<close>, rewritten in place; the arguments of the binding stay.\<close>

lemma updateStateSetters_handler:
  "nodes (updateStateSetters exampleHelpers exampleCounter \<lparr>stateType = UseState, typescript = False\<rparr>) =
     [MitosisNode ''button''
        (Some [(''onClick'', \<lparr>code = ''setCount(state.count + 1)'', arguments = Some [''event'']\<rparr>)])
        (Some [])]"
  by (simp add: updateStateSetters_def updateStateSettersInCode_def transformStateSetters_def
        setStateCall_def getSetStateFnName_def exampleCounter_def exampleHelpers_def
        parseKnown_def stateMember_def toUpperCase_def)

text \<open>
  C5. Under any flavour other than \<open>'useState'\<close>, \<open>updateStateSettersInCode\<close> returns the
  fragment it was given, \<open>updateStateSetters\<close> returns the component untouched, and a
  hook body gets no setter rewrite before \<open>processBinding\<close>.
\<close>

theorem updateStateSetters_pass_through:
  assumes "stateType options \<noteq> UseState"
  shows "updateStateSettersInCode H fragment options = fragment \<and>
         updateStateSetters H json options = json \<and>
         processHookCode H str options = processBinding H str options"
  using assms
  by (simp add: updateStateSettersInCode_def updateStateSetters_def processHookCode_def)

theorem updateStateSetters_pass_through_witness:
  "stateType \<lparr>stateType = Mobx, typescript = False\<rparr> \<noteq> UseState \<and>
   updateStateSettersInCode exampleHelpers ''count = count + 1''
     \<lparr>stateType = Mobx, typescript = False\<rparr> = ''count = count + 1'' \<and>
   updateStateSetters exampleHelpers exampleCounter \<lparr>stateType = Mobx, typescript = False\<rparr>
     = exampleCounter"
  using updateStateSetters_pass_through [where H = exampleHelpers
      and options = "\<lparr>stateType = Mobx, typescript = False\<rparr>"
      and fragment = "''count = count + 1''" and json = exampleCounter]
  by simp

section \<open>Properties of \<open>processStateValue\<close>\<close>

text \<open>
  C8. A value entry (type \<open>'property'\<close>) becomes a declaration of its own, the pair of
  the key and of its setter \<open>setKey\<close> (\<open>set\<close> followed by the capitalized key) bound to
  \<open>useState(() => (initializer))\<close>: the initializer, which is the mapped code of the entry,
  stands inside a function without arguments, the form of a lazy initial state. The
  typed output puts the type argument of an entry that has one between \<open>useState\<close> and
  the parenthesis, and changes nothing else. \<open>getUseStateCode\<close> joins the declarations
  of the entries, one for each.
\<close>

theorem processStateValue_property:
  assumes "type sv = Property"
  shows "processStateValue H options (key, Some sv) =
           ''const ['' @ key @ '', set'' @ capitalize H key @ ''] = useState''
           @ (case typeParameter sv of
                None \<Rightarrow> []
              | Some tp \<Rightarrow> if typescript options \<and> tp \<noteq> [] then ''<'' @ tp @ ''>'' else [])
           @ ''(() => ('' @ valueMapper H options (code sv) @ ''))'' \<and>
         getUseStateCode H json options =
           join ''\<newline>\<newline>\<newline>'' (map (processStateValue H options) (state json))"
  using assms
  by (simp add: processStateValue_def getSetStateFnName_def getUseStateCode_def Let_def)

theorem processStateValue_property_witness:
  "processStateValue exampleHelpers \<lparr>stateType = UseState, typescript = False\<rparr>
     (''count'', Some \<lparr>code = ''0'', type = Property, typeParameter = Some ''number''\<rparr>) =
   ''const [count, setCount] = useState(() => (0))'' \<and>
   getUseStateCode exampleHelpers exampleCounter \<lparr>stateType = UseState, typescript = False\<rparr> =
   ''const [count, setCount] = useState(() => (0))''"
  using processStateValue_property [where H = exampleHelpers
      and options = "\<lparr>stateType = UseState, typescript = False\<rparr>"
      and key = "''count''"
      and sv = "\<lparr>code = ''0'', type = Property, typeParameter = Some ''number''\<rparr>"
      and json = exampleCounter]
  by (simp add: valueMapper_def processHookCode_def updateStateSettersInCode_def
        transformStateSetters_def stripThisRefs_def exampleHelpers_def exampleCounter_def
        parseKnown_def toUpperCase_def)

text \<open>
  The same entry in the typed output: the type argument \<open><number>\<close> is added, and the
  pair, the setter name and the function around the initializer are as before.
\<close>

lemma processStateValue_typed:
  "processStateValue exampleHelpers \<lparr>stateType = UseState, typescript = True\<rparr>
     (''count'', Some \<lparr>code = ''0'', type = Property, typeParameter = Some ''number''\<rparr>) =
   ''const [count, setCount] = useState<number>(() => (0))''"
  by (simp add: processStateValue_def getSetStateFnName_def Let_def
        valueMapper_def processHookCode_def updateStateSettersInCode_def
        transformStateSetters_def stripThisRefs_def exampleHelpers_def parseKnown_def
        toUpperCase_def)

section \<open>Properties of \<open>stripThisRefs\<close>\<close>

lemma this_prefix_append:
  assumes "t \<noteq> []" and "\<not> prefix ''this.'' t" and "r = [] \<or> prefix ''this.'' r"
  shows "\<not> prefix ''this.'' (t @ r)"
proof
  assume "prefix ''this.'' (t @ r)"
  with assms(2) obtain us where us: "''this.'' = t @ us" "prefix us r"
    by (auto simp: prefix_append)
  from us(1) assms(1,2) have "us \<in> {''his.'', ''is.'', ''s.'', ''.''}"
    by (auto simp: Cons_eq_append_conv)
  with us(2) assms(3) show False
    by (auto simp: prefix_def)
qed

lemma replaceThisRefs_skip:
  assumes "\<not> prefix ''this.'' (c # cs)"
  shows "replaceThisRefs (c # cs) = c # replaceThisRefs cs"
  by (subst replaceThisRefs.simps(2)) (simp only: assms simp_thms if_False)

lemma replaceThisRefs_plain:
  "plainText t \<Longrightarrow> r = [] \<or> prefix ''this.'' r \<Longrightarrow>
   replaceThisRefs (t @ r) = t @ replaceThisRefs r"
proof (induction t)
  case Nil
  show ?case by simp
next
  case (Cons c t)
  from Cons.prems(1) have np: "\<not> prefix ''this.'' (c # t)" and pt: "plainText t"
    by (simp_all add: plainText_def)
  have "\<not> prefix ''this.'' ((c # t) @ r)"
    using np Cons.prems(2) by (intro this_prefix_append) simp_all
  then have "\<not> prefix ''this.'' (c # (t @ r))"
    by (simp only: append_Cons not_False_eq_True)
  then have "replaceThisRefs (c # (t @ r)) = c # replaceThisRefs (t @ r)"
    by (rule replaceThisRefs_skip)
  with Cons.IH [OF pt Cons.prems(2)] show ?case by simp
qed

lemma replaceThisRefs_ref:
  assumes "x \<noteq> []" and "list_all identChar x"
    and "rest = [] \<or> \<not> identChar (hd rest)"
  shows "replaceThisRefs (''this.'' @ x @ rest) = x @ replaceThisRefs rest"
proof -
  have tw: "takeWhile identChar rest = []" and dw: "dropWhile identChar rest = rest"
    using assms(3) by (cases rest; simp)+
  have all: "\<forall>c \<in> set x. identChar c"
    using assms(2) by (simp add: list_all_iff)
  have "takeWhile identChar (x @ rest) = x"
    using all tw by (simp add: takeWhile_append2)
  moreover have "dropWhile identChar (x @ rest) = rest"
    using all dw by (simp add: dropWhile_append2)
  ultimately show ?thesis using assms(1) by simp
qed

lemma withThis_start:
  "refPieces ((x, t) # rs) \<Longrightarrow> withThis t rs = [] \<or> \<not> identChar (hd (withThis t rs))"
  by (cases t; cases rs) auto

lemma replaceThisRefs_withThis:
  "plainText t0 \<Longrightarrow> refPieces rs \<Longrightarrow> replaceThisRefs (withThis t0 rs) = withoutThis t0 rs"
proof (induction rs arbitrary: t0)
  case Nil
  then show ?case using replaceThisRefs_plain [of t0 "[]"] by simp
next
  case (Cons p rs)
  obtain x t where p: "p = (x, t)" by (cases p)
  from Cons.prems(2) p have x: "x \<noteq> []" "list_all identChar x"
    and t: "plainText t" and rs: "refPieces rs" by simp_all
  have start: "withThis t rs = [] \<or> \<not> identChar (hd (withThis t rs))"
    using Cons.prems(2) unfolding p by (rule withThis_start)
  have "replaceThisRefs (withThis t0 (p # rs)) =
        t0 @ replaceThisRefs (''this.'' @ x @ withThis t rs)"
    using replaceThisRefs_plain [OF Cons.prems(1), of "''this.'' @ x @ withThis t rs"]
    by (simp add: p)
  also have "\<dots> = t0 @ x @ replaceThisRefs (withThis t rs)"
    using replaceThisRefs_ref [OF x start] by simp
  also have "\<dots> = t0 @ x @ withoutThis t rs"
    using Cons.IH [OF t rs] by simp
  finally show ?case by (simp add: p)
qed

text \<open>
  C9. Take a text made of plain pieces (without \<open>this.\<close>) and of references
  \<open>this.<identifier>\<close>. Under the flavour \<open>'useState'\<close>, \<open>stripThisRefs\<close> returns the same
  text with each reference replaced by its bare identifier; under any other flavour it
  returns its argument, whatever it is. The mapped code of a state entry goes through
  this step last, so it has its references stripped under \<open>'useState'\<close> and kept
  otherwise.
\<close>

theorem stripThisRefs_strips:
  assumes "plainText t0" and "refPieces rs"
  shows "stripThisRefs (withThis t0 rs) options =
           (if stateType options = UseState then withoutThis t0 rs else withThis t0 rs) \<and>
         (stateType options \<noteq> UseState \<longrightarrow> stripThisRefs str options = str) \<and>
         (processHookCode H val options = withThis t0 rs \<longrightarrow>
            valueMapper H options val =
              (if stateType options = UseState then withoutThis t0 rs else withThis t0 rs))"
  using assms by (simp add: stripThisRefs_def valueMapper_def replaceThisRefs_withThis)

theorem stripThisRefs_strips_witness:
  "plainText ''return '' \<and> refPieces [(''name'', ''.toUpperCase() + ''), (''suffix'', [])] \<and>
   stripThisRefs ''return this.name.toUpperCase() + this.suffix''
     \<lparr>stateType = UseState, typescript = False\<rparr> = ''return name.toUpperCase() + suffix'' \<and>
   stripThisRefs ''return this.name.toUpperCase() + this.suffix''
     \<lparr>stateType = Valtio, typescript = False\<rparr> = ''return this.name.toUpperCase() + this.suffix'' \<and>
   processHookCode exampleHelpers ''return this.name.toUpperCase() + this.suffix''
     \<lparr>stateType = UseState, typescript = False\<rparr> = ''return this.name.toUpperCase() + this.suffix'' \<and>
   valueMapper exampleHelpers \<lparr>stateType = UseState, typescript = False\<rparr>
     ''return this.name.toUpperCase() + this.suffix'' = ''return name.toUpperCase() + suffix''"
  using stripThisRefs_strips [where ?t0.0 = "''return ''"
      and rs = "[(''name'', ''.toUpperCase() + ''), (''suffix'', [])]"
      and options = "\<lparr>stateType = UseState, typescript = False\<rparr>"
      and H = exampleHelpers and val = "''return this.name.toUpperCase() + this.suffix''"]
    stripThisRefs_strips [where ?t0.0 = "''return ''"
      and rs = "[(''name'', ''.toUpperCase() + ''), (''suffix'', [])]"
      and options = "\<lparr>stateType = Valtio, typescript = False\<rparr>"
      and str = "''return this.name.toUpperCase() + this.suffix''"]
  by (simp add: plainText_def identChar_def processHookCode_def updateStateSettersInCode_def
        transformStateSetters_def exampleHelpers_def parseKnown_def)

text \<open>
  The regular expression has no word boundary and its matches do not overlap: the scan
  takes \<open>this.this\<close> as a reference to the identifier \<open>this\<close>, and strips the \<open>this.\<close> that
  ends a longer name.
\<close>

lemma replaceThisRefs_leftmost:
  "replaceThisRefs ''this.this.x + athis.y'' = ''this.x + ay''"
  by (simp add: identChar_def)

end
